theory Spec2Isabelle
  imports Main "HOL-Library.AList"
begin

section \<open>Values, exceptions and results\<close>

text \<open>
  The dashboard is TypeScript. A JavaScript object is an insertion-ordered list of own
  properties; JSON-like values are a datatype; a thrown exception is a value of
  \<open>exn\<close> and a call that may throw returns \<open>exn + 'a\<close> (\<open>Inl\<close> the exception).
  \<open>ApiError\<close> is the error class of the API layer; the handlers of the auth context
  test \<open>err instanceof ApiError\<close> and read \<open>err.message\<close>.
\<close>

datatype json = JUndefined | JNull | JBool bool | JNum int | JStr string | JArr "json list"

type_synonym obj = "(string \<times> json) list"

type_synonym User = obj

datatype exn = ApiError string | Error string | TypeError string

section \<open>Roles and permissions (AuthContext)\<close>

definition ROLES_ADMIN :: string where "ROLES_ADMIN = ''Admin''"
definition ROLES_ORGANIZER :: string where "ROLES_ORGANIZER = ''Organizer''"
definition ROLES_PARTICIPANT :: string where "ROLES_PARTICIPANT = ''Participant''"
definition ROLES_VISITOR :: string where "ROLES_VISITOR = ''Visitor''"

definition PERMISSIONS_CREATE_EVENT :: string where "PERMISSIONS_CREATE_EVENT = ''create_event''"
definition PERMISSIONS_EDIT_EVENT :: string where "PERMISSIONS_EDIT_EVENT = ''edit_event''"
definition PERMISSIONS_DELETE_EVENT :: string where "PERMISSIONS_DELETE_EVENT = ''delete_event''"
definition PERMISSIONS_APPROVE_EVENT :: string where "PERMISSIONS_APPROVE_EVENT = ''approve_event''"
definition PERMISSIONS_PUBLISH_EVENT :: string where "PERMISSIONS_PUBLISH_EVENT = ''publish_event''"
definition PERMISSIONS_VIEW_ALL_EVENTS :: string where
  "PERMISSIONS_VIEW_ALL_EVENTS = ''view_all_events''"
definition PERMISSIONS_MANAGE_USERS :: string where "PERMISSIONS_MANAGE_USERS = ''manage_users''"
definition PERMISSIONS_VIEW_USERS :: string where "PERMISSIONS_VIEW_USERS = ''view_users''"
definition PERMISSIONS_UPDATE_USER_ROLES :: string where
  "PERMISSIONS_UPDATE_USER_ROLES = ''update_user_roles''"
definition PERMISSIONS_ACTIVATE_DEACTIVATE_USERS :: string where
  "PERMISSIONS_ACTIVATE_DEACTIVATE_USERS = ''activate_deactivate_users''"
definition PERMISSIONS_MANAGE_REGISTRATIONS :: string where
  "PERMISSIONS_MANAGE_REGISTRATIONS = ''manage_registrations''"
definition PERMISSIONS_MARK_ATTENDANCE :: string where
  "PERMISSIONS_MARK_ATTENDANCE = ''mark_attendance''"
definition PERMISSIONS_GENERATE_CERTIFICATES :: string where
  "PERMISSIONS_GENERATE_CERTIFICATES = ''generate_certificates''"
definition PERMISSIONS_SYSTEM_SETTINGS :: string where
  "PERMISSIONS_SYSTEM_SETTINGS = ''system_settings''"
definition PERMISSIONS_VIEW_ANALYTICS :: string where
  "PERMISSIONS_VIEW_ANALYTICS = ''view_analytics''"

text \<open>The own properties of the object literal \<open>ROLE_PERMISSIONS\<close>, in source order.\<close>

definition ADMIN_PERMISSIONS :: "string list" where
  "ADMIN_PERMISSIONS =
     [PERMISSIONS_CREATE_EVENT,
      PERMISSIONS_EDIT_EVENT,
      PERMISSIONS_DELETE_EVENT,
      PERMISSIONS_APPROVE_EVENT,
      PERMISSIONS_PUBLISH_EVENT,
      PERMISSIONS_VIEW_ALL_EVENTS,
      PERMISSIONS_MANAGE_USERS,
      PERMISSIONS_VIEW_USERS,
      PERMISSIONS_UPDATE_USER_ROLES,
      PERMISSIONS_ACTIVATE_DEACTIVATE_USERS,
      PERMISSIONS_MANAGE_REGISTRATIONS,
      PERMISSIONS_MARK_ATTENDANCE,
      PERMISSIONS_GENERATE_CERTIFICATES,
      PERMISSIONS_SYSTEM_SETTINGS,
      PERMISSIONS_VIEW_ANALYTICS]"

definition ORGANIZER_PERMISSIONS :: "string list" where
  "ORGANIZER_PERMISSIONS =
     [PERMISSIONS_CREATE_EVENT,
      PERMISSIONS_EDIT_EVENT,
      PERMISSIONS_DELETE_EVENT,
      PERMISSIONS_VIEW_ALL_EVENTS,
      PERMISSIONS_MANAGE_REGISTRATIONS,
      PERMISSIONS_MARK_ATTENDANCE,
      PERMISSIONS_GENERATE_CERTIFICATES]"

definition ROLE_PERMISSIONS :: "(string \<times> string list) list" where
  "ROLE_PERMISSIONS =
     [(ROLES_ADMIN, ADMIN_PERMISSIONS),
      (ROLES_ORGANIZER, ORGANIZER_PERMISSIONS),
      (ROLES_PARTICIPANT, []),
      (ROLES_VISITOR, [])]"

text \<open>
  \<open>ROLE_PERMISSIONS\<close> is written as an object literal, so the property read
  \<open>ROLE_PERMISSIONS[role]\<close> first looks among the own properties and then follows the
  prototype chain to \<open>Object.prototype\<close>. The names below are the properties every
  object literal inherits; their values are functions (and, for \<open>__proto__\<close>, the
  prototype object itself): all of them truthy, none of them with an \<open>includes\<close> method.
\<close>

definition Object_prototype_keys :: "string list" where
  "Object_prototype_keys =
     [''constructor'', ''__defineGetter__'', ''__defineSetter__'', ''hasOwnProperty'',
      ''__lookupGetter__'', ''__lookupSetter__'', ''isPrototypeOf'', ''propertyIsEnumerable'',
      ''toString'', ''valueOf'', ''__proto__'', ''toLocaleString'']"

datatype property = Undefined | StringArray "string list" | Inherited

definition ROLE_PERMISSIONS_at :: "string \<Rightarrow> property" where
  "ROLE_PERMISSIONS_at role =
     (case map_of ROLE_PERMISSIONS role of
        Some ps \<Rightarrow> StringArray ps
      | None \<Rightarrow> if role \<in> set Object_prototype_keys then Inherited else Undefined)"

text \<open>
  The callback of \<open>hasPermission\<close>:
  \<open>rolePermissions ? rolePermissions.includes(permission) : false\<close>.
  \<open>undefined\<close> is falsy, an array (also the empty one) is truthy, and calling the
  missing \<open>includes\<close> of an inherited value throws a TypeError.
\<close>

definition role_grants :: "string \<Rightarrow> string \<Rightarrow> exn + bool" where
  "role_grants permission role =
     (case ROLE_PERMISSIONS_at role of
        Undefined \<Rightarrow> Inr False
      | StringArray rolePermissions \<Rightarrow> Inr (permission \<in> set rolePermissions)
      | Inherited \<Rightarrow> Inl (TypeError ''rolePermissions.includes is not a function''))"

text \<open>
  \<open>Array.prototype.some\<close>: left to right, stops at the first element for which the
  callback is true; an exception of the callback ends the call.
\<close>

fun array_some :: "('a \<Rightarrow> exn + bool) \<Rightarrow> 'a list \<Rightarrow> exn + bool" where
  "array_some f [] = Inr False"
| "array_some f (x # xs) =
     (case f x of
        Inl e \<Rightarrow> Inl e
      | Inr b \<Rightarrow> if b then Inr True else array_some f xs)"

definition hasRole :: "string list \<Rightarrow> string \<Rightarrow> bool" where
  "hasRole userRoles requiredRole = (requiredRole \<in> set userRoles)"

definition hasPermission :: "string list \<Rightarrow> string \<Rightarrow> exn + bool" where
  "hasPermission userRoles permission = array_some (role_grants permission) userRoles"

definition isAdmin :: "string list \<Rightarrow> bool" where
  "isAdmin userRoles = hasRole userRoles ROLES_ADMIN"

definition isOrganizer :: "string list \<Rightarrow> bool" where
  "isOrganizer userRoles = hasRole userRoles ROLES_ORGANIZER"

definition isAdminOrOrganizer :: "string list \<Rightarrow> bool" where
  "isAdminOrOrganizer userRoles = (isAdmin userRoles \<or> isOrganizer userRoles)"

section \<open>Client storage and the token manager\<close>

text \<open>
  The world outside the React state: the token entry kept by the token manager, the
  key-value store \<open>localStorage\<close>, and the state of the remote backend, of which
  nothing is known (type \<open>'b\<close>).
\<close>

record 'b world =
  token :: "string option"
  localStorage :: "string \<rightharpoonup> string"
  backend :: 'b

datatype auth_header = NoAuthHeader | AuthHeader string

text \<open>
  Modelled from the spec: \<open>tokenManager.get\<close> of \<open>lib/utils/api\<close>, which is not among the
  sources. It returns the current token or the nothing-present sentinel and never throws.
\<close>

definition tokenManager_get :: "'b world \<Rightarrow> string option" where
  "tokenManager_get w = token w"

text \<open>
  Modelled from the spec: \<open>tokenManager.set\<close> of \<open>lib/utils/api\<close>, which is not among the
  sources. It persists the token, overwriting any prior value.
\<close>

definition tokenManager_set :: "string \<Rightarrow> 'b world \<Rightarrow> 'b world" where
  "tokenManager_set t w = w\<lparr>token := Some t\<rparr>"

text \<open>
  Modelled from the spec: \<open>tokenManager.remove\<close> of \<open>lib/utils/api\<close>, which is not among
  the sources. It clears the persisted token and is idempotent.
\<close>

definition tokenManager_remove :: "'b world \<Rightarrow> 'b world" where
  "tokenManager_remove w = w\<lparr>token := None\<rparr>"

text \<open>
  Modelled from the spec: \<open>tokenManager.getAuthHeader\<close> of \<open>lib/utils/api\<close>, which is not
  among the sources. It produces the header form of the current token, or the absent
  header when no token is present, and has no side effect. \<open>AuthHeader t\<close> stands for
  the header built from the token \<open>t\<close>; its text is not fixed by the spec.
\<close>

definition tokenManager_getAuthHeader :: "'b world \<Rightarrow> auth_header" where
  "tokenManager_getAuthHeader w =
     (case tokenManager_get w of None \<Rightarrow> NoAuthHeader | Some t \<Rightarrow> AuthHeader t)"

section \<open>The auth context\<close>

text \<open>
  The functions that \<open>AuthContext\<close> imports from \<open>lib/api/auth\<close> are not among the
  sources, and neither are the built-ins \<open>JSON.parse\<close> and \<open>JSON.stringify\<close>: they are
  parameters, and both may throw. So is the answer of the browser's store to a write:
  \<open>storage_accepts d k v w\<close> says whether, in the world \<open>w\<close>, the store takes the value
  \<open>v\<close> under the key \<open>k\<close>; where it does not (quota exceeded, storage disabled),
  \<open>localStorage.setItem\<close> throws. An API function may throw, and may change the world
  (the backend, the stored token, the cache) whether it throws or not. \<open>loginUser\<close> stands for the
  \<open>user\<close> field of the response it resolves to, the only part \<open>login\<close> reads.
  Each operation is modelled as one uninterrupted run; React's batching of state writes
  and the interleaving of several pending operations are outside the model.
\<close>

record 'b deps =
  validateToken :: "string \<Rightarrow> 'b world \<Rightarrow> (exn + User option) \<times> 'b world"
  refreshAccessToken :: "'b world \<Rightarrow> (exn + unit) \<times> 'b world"
  loginUser :: "string \<Rightarrow> string \<Rightarrow> 'b world \<Rightarrow> (exn + User) \<times> 'b world"
  logoutUser :: "'b world \<Rightarrow> (exn + unit) \<times> 'b world"
  JSON_parse :: "string \<Rightarrow> exn + User option"
  JSON_stringify :: "User \<Rightarrow> exn + string"
  storage_accepts :: "string \<Rightarrow> string \<Rightarrow> 'b world \<Rightarrow> bool"

text \<open>
  The calls that the properties below count or look for: the API calls, the removal of
  the token, and the writes of the loading flag.
\<close>

datatype call =
    ValidateToken string
  | RefreshAccessToken
  | TokenRemove
  | LoginUser string string
  | LogoutUser
  | SetIsLoading bool

text \<open>
  The three \<open>useState\<close> cells of \<open>AuthProvider\<close>, the world, and the calls made so
  far. \<open>useState\<close> starts them at \<open>null\<close>, \<open>true\<close> and \<open>null\<close>.
\<close>

record 'b AuthState =
  user :: "User option"
  isLoading :: bool
  error :: "string option"
  world :: "'b world"
  calls :: "call list"

definition initial :: "'b world \<Rightarrow> 'b AuthState" where
  "initial w = \<lparr>user = None, isLoading = True, error = None, world = w, calls = []\<rparr>"

definition setUser :: "User option \<Rightarrow> 'b AuthState \<Rightarrow> 'b AuthState" where
  "setUser u s = s\<lparr>user := u\<rparr>"

definition setError :: "string option \<Rightarrow> 'b AuthState \<Rightarrow> 'b AuthState" where
  "setError e s = s\<lparr>error := e\<rparr>"

definition setIsLoading :: "bool \<Rightarrow> 'b AuthState \<Rightarrow> 'b AuthState" where
  "setIsLoading b s = s\<lparr>isLoading := b, calls := calls s @ [SetIsLoading b]\<rparr>"

definition remove_token :: "'b AuthState \<Rightarrow> 'b AuthState" where
  "remove_token s = s\<lparr>world := tokenManager_remove (world s), calls := calls s @ [TokenRemove]\<rparr>"

definition await_validateToken ::
  "'b deps \<Rightarrow> string \<Rightarrow> 'b AuthState \<Rightarrow> (exn + User option) \<times> 'b AuthState" where
  "await_validateToken d t s =
     (case validateToken d t (world s) of
        (r, w) \<Rightarrow> (r, s\<lparr>world := w, calls := calls s @ [ValidateToken t]\<rparr>))"

definition await_refreshAccessToken ::
  "'b deps \<Rightarrow> 'b AuthState \<Rightarrow> (exn + unit) \<times> 'b AuthState" where
  "await_refreshAccessToken d s =
     (case refreshAccessToken d (world s) of
        (r, w) \<Rightarrow> (r, s\<lparr>world := w, calls := calls s @ [RefreshAccessToken]\<rparr>))"

definition await_loginUser ::
  "'b deps \<Rightarrow> string \<Rightarrow> string \<Rightarrow> 'b AuthState \<Rightarrow> (exn + User) \<times> 'b AuthState" where
  "await_loginUser d email password s =
     (case loginUser d email password (world s) of
        (r, w) \<Rightarrow> (r, s\<lparr>world := w, calls := calls s @ [LoginUser email password]\<rparr>))"

definition await_logoutUser :: "'b deps \<Rightarrow> 'b AuthState \<Rightarrow> (exn + unit) \<times> 'b AuthState" where
  "await_logoutUser d s =
     (case logoutUser d (world s) of
        (r, w) \<Rightarrow> (r, s\<lparr>world := w, calls := calls s @ [LogoutUser]\<rparr>))"

text \<open>\<open>if (x)\<close> on a string or \<open>null\<close>: \<open>null\<close> and the empty string are falsy.\<close>

definition truthy :: "string option \<Rightarrow> bool" where
  "truthy x = (case x of None \<Rightarrow> False | Some t \<Rightarrow> t \<noteq> [])"

subsection \<open>checkAuth\<close>

text \<open>
  The first inner \<open>try { ... } catch {}\<close>: hydrate the user from the cached profile. An
  exception of \<open>JSON.parse\<close> is swallowed before either setter runs.
\<close>

definition hydrate :: "'b deps \<Rightarrow> 'b AuthState \<Rightarrow> 'b AuthState" where
  "hydrate d s =
     (let storedUser = localStorage (world s) ''auth_user'' in
      if truthy storedUser then
        (case JSON_parse d (the storedUser) of
           Inl _ \<Rightarrow> s
         | Inr parsed \<Rightarrow> setIsLoading False (setUser parsed s))
      else s)"

text \<open>
  The second inner \<open>try { ... } catch { tokenManager.remove(); setUser(null); }\<close>. An
  exception of any of the three awaited calls reaches the \<open>catch\<close>.
\<close>

definition clear_auth :: "'b AuthState \<Rightarrow> 'b AuthState" where
  "clear_auth s = setUser None (remove_token s)"

definition validate_and_refresh :: "'b deps \<Rightarrow> string \<Rightarrow> 'b AuthState \<Rightarrow> 'b AuthState" where
  "validate_and_refresh d tok s =
     (case await_validateToken d tok s of
        (Inl _, s1) \<Rightarrow> clear_auth s1
      | (Inr (Some userData), s1) \<Rightarrow> setUser (Some userData) s1
      | (Inr None, s1) \<Rightarrow>
          (case await_refreshAccessToken d s1 of
             (Inl _, s2) \<Rightarrow> clear_auth s2
           | (Inr _, s2) \<Rightarrow>
               (let newToken = tokenManager_get (world s2) in
                if truthy newToken then
                  (case await_validateToken d (the newToken) s2 of
                     (Inl _, s3) \<Rightarrow> clear_auth s3
                   | (Inr (Some refreshedUserData), s3) \<Rightarrow> setUser (Some refreshedUserData) s3
                   | (Inr None, s3) \<Rightarrow> clear_auth s3)
                else s2)))"

text \<open>
  \<open>checkAuth\<close>. Its outer \<open>catch\<close> has no branch here: \<open>tokenManager.get\<close> does not throw
  and both inner blocks catch what their calls throw, so nothing reaches it. The
  \<open>finally\<close> block runs on every path.
\<close>

definition checkAuth :: "'b deps \<Rightarrow> 'b AuthState \<Rightarrow> 'b AuthState" where
  "checkAuth d s =
     setIsLoading False
       (let tok = tokenManager_get (world s) in
        if truthy tok then validate_and_refresh d (the tok) (hydrate d s) else s)"

subsection \<open>login, logout, updateUser\<close>

definition login ::
  "'b deps \<Rightarrow> string \<Rightarrow> string \<Rightarrow> 'b AuthState \<Rightarrow> (exn + unit) \<times> 'b AuthState" where
  "login d email password s =
     (case await_loginUser d email password (setIsLoading True (setError None s)) of
        (Inr userData, s1) \<Rightarrow> (Inr (), setIsLoading False (setUser (Some userData) s1))
      | (Inl err, s1) \<Rightarrow>
          (let errorMessage = (case err of ApiError message \<Rightarrow> message | _ \<Rightarrow> ''Login failed'')
           in (Inl err, setIsLoading False (setError (Some errorMessage) s1))))"

text \<open>
  \<open>logout\<close> resolves on both paths: its \<open>catch\<close> only reports the error on the console.
\<close>

definition logout :: "'b deps \<Rightarrow> 'b AuthState \<Rightarrow> 'b AuthState" where
  "logout d s =
     (case await_logoutUser d (setIsLoading True s) of
        (Inr _, s1) \<Rightarrow> setIsLoading False (setUser None s1)
      | (Inl err, s1) \<Rightarrow> setIsLoading False s1)"

definition clearError :: "'b AuthState \<Rightarrow> 'b AuthState" where
  "clearError s = setError None s"

text \<open>
  The object spread \<open>{ ...prev, ...partial }\<close>: the properties of \<open>prev\<close> in their order,
  each with the value \<open>partial\<close> gives it if it names it, followed by the properties only
  \<open>partial\<close> has.
\<close>

definition spread :: "obj \<Rightarrow> obj \<Rightarrow> obj" where
  "spread prev partial = fold (\<lambda>(k, v). AList.update k v) partial prev"

text \<open>
  \<open>localStorage.setItem\<close>: the store takes the value, or the call throws and the store
  is as before.
\<close>

definition localStorage_setItem ::
  "'b deps \<Rightarrow> string \<Rightarrow> string \<Rightarrow> 'b world \<Rightarrow> exn + 'b world" where
  "localStorage_setItem d k v w =
     (if storage_accepts d k v w then Inr (w\<lparr>localStorage := (localStorage w)(k \<mapsto> v)\<rparr>)
      else Inl (Error ''QuotaExceededError''))"

text \<open>
  \<open>updateUser\<close>, the updater passed to \<open>setUser\<close>. The write of the cache is inside
  \<open>try { ... } catch {}\<close>: an exception of \<open>JSON.stringify\<close> or of
  \<open>localStorage.setItem\<close> is swallowed and \<open>next\<close> is returned all the same.
\<close>

definition updateUser :: "'b deps \<Rightarrow> obj \<Rightarrow> 'b AuthState \<Rightarrow> 'b AuthState" where
  "updateUser d partial s =
     (case user s of
        None \<Rightarrow> s
      | Some prev \<Rightarrow>
          (let next = spread prev partial in
           case JSON_stringify d next of
             Inl _ \<Rightarrow> s\<lparr>user := Some next\<rparr>
           | Inr text \<Rightarrow>
               (case localStorage_setItem d ''auth_user'' text (world s) of
                  Inl _ \<Rightarrow> s\<lparr>user := Some next\<rparr>
                | Inr w \<Rightarrow> s\<lparr>user := Some next, world := w\<rparr>)))"

section \<open>The events API\<close>

text \<open>
  The HTTP helpers of \<open>lib/utils/api\<close> are not among the sources: they are parameters.
  Each takes the path, the body where there is one, and the authorization header; it
  may throw, and it may change the world.
\<close>

text \<open>Of the response type \<open>ApiResponse\<close> only the field \<open>data\<close> is read.\<close>

record 'a ApiResponse =
  data :: 'a

record 'b http =
  apiGet :: "string \<Rightarrow> auth_header \<Rightarrow> 'b world \<Rightarrow> (exn + obj ApiResponse) \<times> 'b world"
  apiPost :: "string \<Rightarrow> obj option \<Rightarrow> auth_header \<Rightarrow> 'b world \<Rightarrow> (exn + obj ApiResponse) \<times> 'b world"
  apiPut :: "string \<Rightarrow> obj \<Rightarrow> auth_header \<Rightarrow> 'b world \<Rightarrow> (exn + obj ApiResponse) \<times> 'b world"
  apiDelete :: "string \<Rightarrow> auth_header \<Rightarrow> 'b world \<Rightarrow> (exn + obj ApiResponse) \<times> 'b world"

definition updateEvent :: "'b http \<Rightarrow> string \<Rightarrow> obj \<Rightarrow> 'b world \<Rightarrow> (exn + obj) \<times> 'b world" where
  "updateEvent h eventId eventData w =
     (case apiPut h (''/api/v1/admin/events/'' @ eventId) eventData (tokenManager_getAuthHeader w) w of
        (Inl err, w') \<Rightarrow> (Inl err, w')
      | (Inr response, w') \<Rightarrow> (Inr (data response), w'))"

definition approveEvent :: "'b http \<Rightarrow> string \<Rightarrow> 'b world \<Rightarrow> (exn + unit) \<times> 'b world" where
  "approveEvent h eventId w =
     (case apiPost h (''/api/v1/admin/events/'' @ eventId @ ''/approve'') None
             (tokenManager_getAuthHeader w) w of
        (Inl err, w') \<Rightarrow> (Inl err, w')
      | (Inr _, w') \<Rightarrow> (Inr (), w'))"

definition declineEvent :: "'b http \<Rightarrow> string \<Rightarrow> 'b world \<Rightarrow> (exn + unit) \<times> 'b world" where
  "declineEvent h eventId w =
     (case updateEvent h eventId [(''status'', JStr ''cancelled'')] w of
        (Inl err, w') \<Rightarrow> (Inl err, w')
      | (Inr _, w') \<Rightarrow> (Inr (), w'))"

section \<open>Example worlds\<close>

text \<open>
  A user, a browser and a backend to run the operations on. The example backend accepts
  the token \<open>valid\<close> only, answers "no user" for any other token while it is reachable
  and fails with a network error while it is not; it refreshes a token only when the
  browser holds the refresh marker; it accepts the password \<open>secret\<close>. The store of
  \<open>demo\<close> takes every write, the store of \<open>full_store\<close> none.
\<close>

definition alice :: User where
  "alice = [(''id'', JStr ''u1''), (''email'', JStr ''alice@example.org''),
            (''roles'', JArr [JStr ''Organizer'']), (''is_active'', JBool True)]"

definition demo :: "bool deps" where
  "demo =
     \<lparr>validateToken = (\<lambda>t w.
        (if t = ''valid'' then Inr (Some alice)
         else if backend w then Inr None else Inl (Error ''Network Error''), w)),
      refreshAccessToken = (\<lambda>w.
        if localStorage w ''refresh'' = Some ''ok'' then (Inr (), tokenManager_set ''valid'' w)
        else (Inl (ApiError ''Token refresh failed''), w)),
      loginUser = (\<lambda>email password w.
        if password = ''secret'' then (Inr alice, tokenManager_set ''valid'' w)
        else (Inl (ApiError ''Invalid credentials''), w)),
      logoutUser = (\<lambda>w.
        if backend w then (Inr (), tokenManager_remove w) else (Inl (Error ''Network Error''), w)),
      JSON_parse = (\<lambda>text.
        if text = ''alice'' then Inr (Some alice) else Inl (Error ''Unexpected token'')),
      JSON_stringify = (\<lambda>u. Inr (if u = alice then ''alice'' else ''other'')),
      storage_accepts = (\<lambda>k v w. True)\<rparr>"

definition full_store :: "bool deps" where
  "full_store = demo\<lparr>storage_accepts := (\<lambda>k v w. False)\<rparr>"

definition browser :: "string option \<Rightarrow> string option \<Rightarrow> bool \<Rightarrow> bool world" where
  "browser t cached online =
     \<lparr>token = t,
      localStorage = (\<lambda>k. if k = ''auth_user'' then cached else None),
      backend = online\<rparr>"

definition server :: "bool http" where
  "server =
     \<lparr>apiGet = (\<lambda>path hdr w. (Inl (ApiError ''Not found''), w)),
      apiPost = (\<lambda>path body hdr w. (Inl (ApiError ''Not found''), w)),
      apiPut = (\<lambda>path body hdr w.
        if hdr = NoAuthHeader then (Inl (ApiError ''Unauthorized''), w)
        else (Inr \<lparr>data = (''id'', JStr (drop 21 path)) # body\<rparr>, w)),
      apiDelete = (\<lambda>path hdr w. (Inl (ApiError ''Not found''), w))\<rparr>"

section \<open>Properties of the role and permission checks\<close>

lemmas role_names = ROLES_ADMIN_def ROLES_ORGANIZER_def ROLES_PARTICIPANT_def ROLES_VISITOR_def

lemmas permission_names = PERMISSIONS_CREATE_EVENT_def PERMISSIONS_EDIT_EVENT_def PERMISSIONS_DELETE_EVENT_def PERMISSIONS_APPROVE_EVENT_def
  PERMISSIONS_PUBLISH_EVENT_def PERMISSIONS_VIEW_ALL_EVENTS_def PERMISSIONS_MANAGE_USERS_def PERMISSIONS_VIEW_USERS_def PERMISSIONS_UPDATE_USER_ROLES_def
  PERMISSIONS_ACTIVATE_DEACTIVATE_USERS_def PERMISSIONS_MANAGE_REGISTRATIONS_def PERMISSIONS_MARK_ATTENDANCE_def
  PERMISSIONS_GENERATE_CERTIFICATES_def PERMISSIONS_SYSTEM_SETTINGS_def PERMISSIONS_VIEW_ANALYTICS_def

lemma at_admin: "ROLE_PERMISSIONS_at ROLES_ADMIN = StringArray ADMIN_PERMISSIONS"
  by (simp add: ROLE_PERMISSIONS_at_def ROLE_PERMISSIONS_def)

lemma at_organizer: "ROLE_PERMISSIONS_at ROLES_ORGANIZER = StringArray ORGANIZER_PERMISSIONS"
  by (simp add: ROLE_PERMISSIONS_at_def ROLE_PERMISSIONS_def role_names)

lemma at_toString: "ROLE_PERMISSIONS_at ''toString'' = Inherited"
  by (simp add: ROLE_PERMISSIONS_at_def ROLE_PERMISSIONS_def role_names Object_prototype_keys_def)

lemma array_some_True_iff:
  "array_some f xs = Inr True \<longleftrightarrow>
     (\<exists>ys x zs. xs = ys @ x # zs \<and> f x = Inr True \<and> (\<forall>y \<in> set ys. f y = Inr False))"
proof (induction xs)
  case Nil
  then show ?case by simp
next
  case (Cons a xs)
  show ?case
  proof (cases "f a")
    case (Inl e)
    then show ?thesis
      by (auto simp: Cons_eq_append_conv)
  next
    case (Inr b)
    show ?thesis
    proof (cases b)
      case True
      with Inr have "a # xs = [] @ a # xs \<and> f a = Inr True \<and> (\<forall>y \<in> set []. f y = Inr False)"
        by simp
      then have "\<exists>ys x zs. a # xs = ys @ x # zs \<and> f x = Inr True \<and> (\<forall>y \<in> set ys. f y = Inr False)"
        by blast
      with Inr True show ?thesis by simp
    next
      case False
      with Inr Cons.IH show ?thesis
        apply (simp)
        apply (rule iffI)
         apply (elim exE conjE)
        subgoal for ys x zs
          by (rule exI[of _ "a # ys"]) auto
        apply (elim exE conjE)
        subgoal for ys x zs
          by (cases ys) auto
        done
    qed
  qed
qed

lemma array_some_append_True:
  "array_some f xs = Inr True \<Longrightarrow> array_some f (xs @ ys) = Inr True"
  by (induction xs) (auto split: sum.splits if_splits)

lemma array_some_no_throw:
  "\<forall>x \<in> set xs. \<exists>b. f x = Inr b \<Longrightarrow> array_some f xs = Inr (\<exists>x \<in> set xs. f x = Inr True)"
  by (induction xs) (auto split: sum.splits)

lemma role_grants_True_iff:
  "role_grants p r = Inr True \<longleftrightarrow> (\<exists>ps. map_of ROLE_PERMISSIONS r = Some ps \<and> p \<in> set ps)"
  by (auto simp: role_grants_def ROLE_PERMISSIONS_at_def split: option.splits)

lemma role_grants_throws_iff:
  "(\<exists>e. role_grants p r = Inl e) \<longleftrightarrow> (map_of ROLE_PERMISSIONS r = None \<and> r \<in> set Object_prototype_keys)"
  by (auto simp: role_grants_def ROLE_PERMISSIONS_at_def split: option.splits)

lemma hasPermission_granted_only_by_table:
  "hasPermission R p = Inr True \<Longrightarrow> \<exists>r \<in> set R. \<exists>ps. map_of ROLE_PERMISSIONS r = Some ps \<and> p \<in> set ps"
  unfolding hasPermission_def array_some_True_iff role_grants_True_iff by auto

lemma hasPermission_union:
  assumes "set R \<inter> set Object_prototype_keys = {}"
  shows "hasPermission R p = Inr (\<exists>r \<in> set R. \<exists>ps. map_of ROLE_PERMISSIONS r = Some ps \<and> p \<in> set ps)"
proof -
  have "\<forall>r \<in> set R. \<exists>b. role_grants p r = Inr b"
  proof
    fix r assume "r \<in> set R"
    with assms have "r \<notin> set Object_prototype_keys" by auto
    then have "\<not> (\<exists>e. role_grants p r = Inl e)" by (simp add: role_grants_throws_iff)
    then show "\<exists>b. role_grants p r = Inr b" by (cases "role_grants p r") auto
  qed
  then show ?thesis
    unfolding hasPermission_def by (simp add: array_some_no_throw role_grants_True_iff)
qed

lemma empty_role_list: "hasPermission [] p = Inr False \<and> \<not> hasRole [] r"
  by (simp add: hasPermission_def hasRole_def)

lemma Administrator_is_not_a_label:
  "hasPermission [ROLES_ORGANIZER, ''Administrator''] PERMISSIONS_APPROVE_EVENT = Inr False"
  by (simp add: hasPermission_def role_grants_def at_organizer ROLE_PERMISSIONS_at_def
      ROLE_PERMISSIONS_def Object_prototype_keys_def ORGANIZER_PERMISSIONS_def role_names
      permission_names)

text \<open>
  Claim C1. For every list of role labels \<open>R\<close> and every permission \<open>p\<close>,
  \<open>hasPermission(R, p)\<close> is true exactly when \<open>p\<close> is in the union of the table entries
  of the roles in \<open>R\<close>, and a role without a table entry contributes nothing, so that the
  result is false when no role of \<open>R\<close> has an entry containing \<open>p\<close>.

  The lemmas above show this for every list without a name inherited from
  \<open>Object.prototype\<close> (\<open>hasPermission_union\<close>), show that no list is ever granted
  a permission outside the union (\<open>hasPermission_granted_only_by_table\<close>), and
  show the empty list (\<open>empty_role_list\<close>). At a role label such as \<open>toString\<close>,
  which has no table entry, the guard \<open>rolePermissions ? ... : false\<close> sees a truthy
  inherited function and the call throws instead of returning false; placed before
  \<open>Admin\<close>, it also keeps the call from returning true for a permission that is in
  the union.
\<close>

theorem hasPermission_inherited_name_throws:
  "hasPermission [''toString''] PERMISSIONS_CREATE_EVENT
     = Inl (TypeError ''rolePermissions.includes is not a function'')
   \<and> hasPermission [''toString'', ROLES_ADMIN] PERMISSIONS_CREATE_EVENT
     = Inl (TypeError ''rolePermissions.includes is not a function'')
   \<and> map_of ROLE_PERMISSIONS ROLES_ADMIN = Some ADMIN_PERMISSIONS
   \<and> PERMISSIONS_CREATE_EVENT \<in> set ADMIN_PERMISSIONS"
  by (simp add: hasPermission_def role_grants_def at_toString ROLE_PERMISSIONS_def
      ADMIN_PERMISSIONS_def)

text \<open>
  Claim C4. Changing a role list from \<open>[Organizer]\<close> to \<open>[Organizer, Administrator]\<close>
  flips \<open>hasPermission\<close> from false to true for every permission that only the
  Administrator role is granted, such as \<open>approve_event\<close>. \<open>hasPermission\<close> is a function
  of the list it is given, so the new list is answered at once. The label of the
  Administrator role is \<open>ROLES.ADMIN\<close>, the string \<open>Admin\<close>.
\<close>

theorem role_update_flips_permission:
  assumes "p \<in> set ADMIN_PERMISSIONS" and "p \<notin> set ORGANIZER_PERMISSIONS"
  shows "hasPermission [ROLES_ORGANIZER] p = Inr False
       \<and> hasPermission [ROLES_ORGANIZER, ROLES_ADMIN] p = Inr True"
  using assms by (simp add: hasPermission_def role_grants_def at_admin at_organizer)

text \<open>
  Claim C4, at \<open>approve_event\<close>.
\<close>

theorem role_update_flips_permission_witness:
  "PERMISSIONS_APPROVE_EVENT \<in> set ADMIN_PERMISSIONS \<and> PERMISSIONS_APPROVE_EVENT \<notin> set ORGANIZER_PERMISSIONS
   \<and> hasPermission [ROLES_ORGANIZER] PERMISSIONS_APPROVE_EVENT = Inr False
   \<and> hasPermission [ROLES_ORGANIZER, ROLES_ADMIN] PERMISSIONS_APPROVE_EVENT = Inr True"
proof -
  have a: "PERMISSIONS_APPROVE_EVENT \<in> set ADMIN_PERMISSIONS"
    by (simp add: ADMIN_PERMISSIONS_def)
  have b: "PERMISSIONS_APPROVE_EVENT \<notin> set ORGANIZER_PERMISSIONS"
    by (simp add: ORGANIZER_PERMISSIONS_def permission_names)
  from a b role_update_flips_permission [OF a b] show ?thesis by simp
qed

text \<open>
  Claim C10. Adding a role at the end of a role list revokes nothing: a permission that
  the list is granted and a role that the list holds stay so, whatever the added label is.
\<close>

theorem adding_a_role_revokes_nothing:
  "(hasPermission R p = Inr True \<longrightarrow> hasPermission (R @ [r]) p = Inr True)
   \<and> (hasRole R q \<longrightarrow> hasRole (R @ [r]) q)"
  by (simp add: hasPermission_def hasRole_def array_some_append_True)

text \<open>
  Claim C10, at the organizer's list with the label \<open>toString\<close> added: \<open>some\<close> has
  answered before it reaches the added label.
\<close>

theorem adding_a_role_revokes_nothing_witness:
  "hasPermission [ROLES_ORGANIZER] PERMISSIONS_CREATE_EVENT = Inr True
   \<and> hasPermission ([ROLES_ORGANIZER] @ [''toString'']) PERMISSIONS_CREATE_EVENT = Inr True
   \<and> hasRole [ROLES_ORGANIZER] ROLES_ORGANIZER
   \<and> hasRole ([ROLES_ORGANIZER] @ [''toString'']) ROLES_ORGANIZER"
proof -
  have a: "hasPermission [ROLES_ORGANIZER] PERMISSIONS_CREATE_EVENT = Inr True"
    by (simp add: hasPermission_def role_grants_def at_organizer ORGANIZER_PERMISSIONS_def)
  have b: "hasRole [ROLES_ORGANIZER] ROLES_ORGANIZER"
    by (simp add: hasRole_def)
  from a b adding_a_role_revokes_nothing [of "[ROLES_ORGANIZER]" PERMISSIONS_CREATE_EVENT "''toString''" ROLES_ORGANIZER]
  show ?thesis by simp
qed

section \<open>Properties of the auth context\<close>

lemmas steps = setUser_def setError_def setIsLoading_def remove_token_def clear_auth_def
  await_validateToken_def await_refreshAccessToken_def await_loginUser_def await_logoutUser_def
  tokenManager_get_def tokenManager_set_def tokenManager_remove_def truthy_def

lemma hydrate_world: "world (hydrate d s) = world s"
  by (simp add: hydrate_def steps Let_def split: sum.splits)

lemma hydrate_calls:
  "calls (hydrate d s) = calls s @
     (if truthy (localStorage (world s) ''auth_user'')
         \<and> \<not> isl (JSON_parse d (the (localStorage (world s) ''auth_user'')))
      then [SetIsLoading False] else [])"
  by (simp add: hydrate_def steps Let_def split: sum.splits)

lemma validate_and_refresh_calls:
  assumes "validateToken d tok (world s) = (r1, w1)"
  shows "count_list (calls (validate_and_refresh d tok s)) RefreshAccessToken
           = count_list (calls s) RefreshAccessToken + (if r1 = Inr None then 1 else 0)"
    and "count_list (calls (validate_and_refresh d tok s)) (SetIsLoading b)
           = count_list (calls s) (SetIsLoading b)"
  using assms
  by (auto simp: validate_and_refresh_def steps Let_def split: prod.splits sum.splits option.splits)

lemma validate_and_refresh_cleared:
  assumes "validateToken d tok (world s) = (r1, w1)" and "\<forall>u. r1 \<noteq> Inr (Some u)"
    and "refreshAccessToken d w1 = (r2, w2)"
    and "validateToken d (the (tokenManager_get w2)) w2 = (r3, w3)"
    and "isl r1 \<or> isl r2 \<or> (truthy (tokenManager_get w2) \<and> (\<forall>u. r3 \<noteq> Inr (Some u)))"
  shows "user (validate_and_refresh d tok s) = None
       \<and> tokenManager_get (world (validate_and_refresh d tok s)) = None
       \<and> TokenRemove \<in> set (calls (validate_and_refresh d tok s))"
  using assms
  by (auto simp: validate_and_refresh_def steps Let_def split: prod.splits sum.splits option.splits)

lemma setIsLoading_fields: "user (setIsLoading b s) = user s" "world (setIsLoading b s) = world s"
   "calls (setIsLoading b s) = calls s @ [SetIsLoading b]" "isLoading (setIsLoading b s) = b"
  by (simp_all add: setIsLoading_def)

lemma demo_sel:
  "validateToken demo = (\<lambda>t w.
        (if t = ''valid'' then Inr (Some alice)
         else if backend w then Inr None else Inl (Error ''Network Error''), w))"
  "refreshAccessToken demo = (\<lambda>w.
        if localStorage w ''refresh'' = Some ''ok'' then (Inr (), tokenManager_set ''valid'' w)
        else (Inl (ApiError ''Token refresh failed''), w))"
  "loginUser demo = (\<lambda>email password w.
        if password = ''secret'' then (Inr alice, tokenManager_set ''valid'' w)
        else (Inl (ApiError ''Invalid credentials''), w))"
  "logoutUser demo = (\<lambda>w.
        if backend w then (Inr (), tokenManager_remove w) else (Inl (Error ''Network Error''), w))"
  "JSON_parse demo = (\<lambda>text. if text = ''alice'' then Inr (Some alice) else Inl (Error ''Unexpected token''))"
  "JSON_stringify demo = (\<lambda>u. Inr (if u = alice then ''alice'' else ''other''))"
  "storage_accepts demo = (\<lambda>k v w. True)"
  by (simp_all add: demo_def)

lemma logout_outcome:
  "logoutUser d (world s) = (r, w) \<Longrightarrow>
     user (logout d s) = (if isl r then user s else None) \<and> world (logout d s) = w
     \<and> isLoading (logout d s) = False"
  by (auto simp: logout_def steps split: sum.splits)

lemma map_of_fold_update:
  "distinct (map fst partial) \<Longrightarrow>
   map_of (fold (\<lambda>(k, v). AList.update k v) partial prev) = map_of prev ++ map_of partial"
proof (induction partial arbitrary: prev)
  case Nil
  then show ?case by simp
next
  case (Cons kv partial)
  obtain k v where kv: "kv = (k, v)" by (cases kv)
  from Cons.prems kv have d: "distinct (map fst partial)" and k: "k \<notin> fst ` set partial"
    by auto
  from k have n: "map_of partial k = None"
    by (simp add: map_of_eq_None_iff)
  have "map_of (fold (\<lambda>(k, v). AList.update k v) (kv # partial) prev)
          = map_of (AList.update k v prev) ++ map_of partial"
    using Cons.IH [OF d, of "AList.update k v prev"] kv by simp
  also have "\<dots> = (map_of prev)(k \<mapsto> v) ++ map_of partial"
    by (simp only: update_conv')
  also have "\<dots> = map_of prev ++ map_of (kv # partial)"
    using n kv by (auto simp: fun_eq_iff map_add_def split: option.splits)
  finally show ?case .
qed

lemma map_of_spread:
  "distinct (map fst partial) \<Longrightarrow>
   map_of (spread prev partial) k = (case map_of partial k of Some v \<Rightarrow> Some v | None \<Rightarrow> map_of prev k)"
  by (simp add: spread_def map_of_fold_update map_add_def)

text \<open>
  Claim C2, as the code has it. \<open>checkAuth\<close> starts with a stored token \<open>tok\<close> whose
  validation fails: \<open>validateToken\<close> returns no user or throws (\<open>r1\<close>). \<open>r2\<close> and \<open>r3\<close>
  name what the refresh and the validation of the refreshed token answer. If the
  validation returned no user, \<open>checkAuth\<close> calls \<open>refreshAccessToken\<close> exactly once; if
  it threw, not at all. If the validation threw, or the refresh throws, or the refreshed
  token is validated and that returns no user or throws, the final state has no user and
  no stored token, and \<open>tokenManager.remove\<close> was called.
\<close>

theorem checkAuth_failed_validation:
  assumes "tokenManager_get (world s) = Some tok" and "tok \<noteq> []"
    and "validateToken d tok (world s) = (r1, w1)" and "\<forall>u. r1 \<noteq> Inr (Some u)"
    and "refreshAccessToken d w1 = (r2, w2)"
    and "validateToken d (the (tokenManager_get w2)) w2 = (r3, w3)"
  shows "count_list (calls (checkAuth d s)) RefreshAccessToken
           = count_list (calls s) RefreshAccessToken + (if isl r1 then 0 else 1)
       \<and> (isl r1 \<or> isl r2 \<or> (truthy (tokenManager_get w2) \<and> (\<forall>u. r3 \<noteq> Inr (Some u)))
            \<longrightarrow> user (checkAuth d s) = None
              \<and> tokenManager_get (world (checkAuth d s)) = None
              \<and> TokenRemove \<in> set (calls (checkAuth d s)))"
proof -
  let ?h = "hydrate d s"
  have v: "validateToken d tok (world ?h) = (r1, w1)"
    using assms(3) by (simp add: hydrate_world)
  have eq: "checkAuth d s = setIsLoading False (validate_and_refresh d tok ?h)"
    using assms(1,2) by (simp add: checkAuth_def truthy_def Let_def)
  have r1: "(r1 = Inr None) = (\<not> isl r1)"
    using assms(4) by (cases r1) auto
  have "count_list (calls (checkAuth d s)) RefreshAccessToken
           = count_list (calls s) RefreshAccessToken + (if isl r1 then 0 else 1)"
    unfolding eq using validate_and_refresh_calls(1) [OF v] r1
    by (simp add: setIsLoading_fields hydrate_calls)
  moreover have "user (checkAuth d s) = None \<and> tokenManager_get (world (checkAuth d s)) = None
              \<and> TokenRemove \<in> set (calls (checkAuth d s))"
    if "isl r1 \<or> isl r2 \<or> (truthy (tokenManager_get w2) \<and> (\<forall>u. r3 \<noteq> Inr (Some u)))"
    unfolding eq using validate_and_refresh_cleared [OF v assms(4,5,6) that]
    by (simp add: setIsLoading_fields)
  ultimately show ?thesis by blast
qed

text \<open>
  Claim C2, at an expired token, a reachable backend that answers "no user", and a
  refresh that is refused: one refresh call, then user and token cleared.
\<close>

theorem checkAuth_failed_validation_witness:
  "count_list (calls (checkAuth demo (initial (browser (Some ''expired'') None True)))) RefreshAccessToken = 1
   \<and> user (checkAuth demo (initial (browser (Some ''expired'') None True))) = None
   \<and> tokenManager_get (world (checkAuth demo (initial (browser (Some ''expired'') None True)))) = None
   \<and> TokenRemove \<in> set (calls (checkAuth demo (initial (browser (Some ''expired'') None True))))"
proof -
  let ?w = "browser (Some ''expired'') None True"
  have 1: "tokenManager_get (world (initial ?w)) = Some ''expired''"
    by (simp add: initial_def browser_def tokenManager_get_def)
  have 2: "''expired'' \<noteq> []" by simp
  have 3: "validateToken demo ''expired'' (world (initial ?w)) = (Inr None, ?w)"
    by (simp add: demo_sel initial_def browser_def)
  have 4: "\<forall>u. (Inr None :: exn + User option) \<noteq> Inr (Some u)" by simp
  have 5: "refreshAccessToken demo ?w = (Inl (ApiError ''Token refresh failed''), ?w)"
    by (simp add: demo_sel browser_def)
  have 6: "validateToken demo (the (tokenManager_get ?w)) ?w = (Inr None, ?w)"
    by (simp add: demo_sel browser_def tokenManager_get_def)
  from checkAuth_failed_validation [OF 1 2 3 4 5 6] show ?thesis
    by (simp add: initial_def)
qed

text \<open>
  Claim C2 as stated asks for exactly one refresh call also when \<open>validateToken\<close>
  throws. With the backend unreachable the validation throws, the \<open>catch\<close> block clears
  the session and no refresh call is made.
\<close>

theorem checkAuth_thrown_validation_skips_refresh:
  "fst (validateToken demo ''expired'' (browser (Some ''expired'') None False))
     = Inl (Error ''Network Error'')
   \<and> count_list (calls (checkAuth demo (initial (browser (Some ''expired'') None False))))
       RefreshAccessToken \<noteq> 1"
  by (simp add: checkAuth_def validate_and_refresh_def hydrate_def steps demo_sel initial_def
      browser_def Let_def)

text \<open>
  Claim C9, as the code has it. Every branch of \<open>checkAuth\<close> ends with the loading flag
  false, the \<open>setIsLoading(false)\<close> of the \<open>finally\<close> block being its last call, and no
  branch sets the flag to true. The flag is set to false once, except where a cached
  profile is hydrated (a token is stored, the cache entry is present and parses): there
  it is set to false twice, after the hydration and in the \<open>finally\<close> block.
\<close>

theorem checkAuth_clears_loading:
  "isLoading (checkAuth d s) = False
   \<and> last (calls (checkAuth d s)) = SetIsLoading False
   \<and> count_list (calls (checkAuth d s)) (SetIsLoading True) = count_list (calls s) (SetIsLoading True)
   \<and> count_list (calls (checkAuth d s)) (SetIsLoading False)
       = count_list (calls s) (SetIsLoading False)
         + (if truthy (tokenManager_get (world s))
               \<and> truthy (localStorage (world s) ''auth_user'')
               \<and> \<not> isl (JSON_parse d (the (localStorage (world s) ''auth_user'')))
            then 2 else 1)"
proof (cases "truthy (tokenManager_get (world s))")
  case False
  then show ?thesis
    by (simp add: checkAuth_def Let_def setIsLoading_fields)
next
  case True
  obtain r1 w1 where v: "validateToken d (the (tokenManager_get (world s))) (world (hydrate d s)) = (r1, w1)"
    by (cases "validateToken d (the (tokenManager_get (world s))) (world (hydrate d s))")
  from True have eq: "checkAuth d s
      = setIsLoading False (validate_and_refresh d (the (tokenManager_get (world s))) (hydrate d s))"
    by (simp add: checkAuth_def Let_def)
  show ?thesis
    unfolding eq using True validate_and_refresh_calls(2) [OF v]
    by (simp add: setIsLoading_fields hydrate_calls)
qed

text \<open>
  Claim C9, at a browser without a token: the flag is set to false once.
\<close>

theorem checkAuth_clears_loading_witness:
  "isLoading (checkAuth demo (initial (browser None None True))) = False
   \<and> count_list (calls (checkAuth demo (initial (browser None None True)))) (SetIsLoading False) = 1"
  using checkAuth_clears_loading [of demo "initial (browser None None True)"]
  by (simp add: initial_def browser_def steps)

text \<open>
  Claim C9 as stated asks for exactly one write of false on every branch. With a valid
  token and a cached profile the flag is set to false twice.
\<close>

theorem checkAuth_clears_loading_twice_on_cached_profile:
  "count_list (calls (checkAuth demo (initial (browser (Some ''valid'') (Some ''alice'') True))))
     (SetIsLoading False) = 2"
  by (simp add: checkAuth_def validate_and_refresh_def hydrate_def steps demo_sel initial_def
      browser_def Let_def)

text \<open>
  Claim C3. Every execution of \<open>logout\<close>, also one in which the backend call fails, sets
  the user to absent and clears the stored token. In \<open>logout\<close> the \<open>setUser(null)\<close>
  follows the awaited \<open>logoutUser()\<close> inside the \<open>try\<close> block and the \<open>catch\<close> block only
  reports the error, so a call that throws leaves the user in place
  (\<open>logout_outcome\<close>); \<open>logout\<close> itself never calls \<open>tokenManager.remove\<close>. Here the
  backend is unreachable while \<open>alice\<close> is signed in.
\<close>

theorem logout_backend_failure_keeps_user:
  "fst (logoutUser demo (browser (Some ''valid'') None False)) = Inl (Error ''Network Error'')
   \<and> user (logout demo ((initial (browser (Some ''valid'') None False))\<lparr>user := Some alice\<rparr>))
       = Some alice
   \<and> tokenManager_get (world (logout demo ((initial (browser (Some ''valid'') None False))\<lparr>user := Some alice\<rparr>)))
       = Some ''valid''"
  by (simp add: logout_def steps demo_sel initial_def browser_def)

text \<open>
  Claim C5. When \<open>login\<close> fails with an API error, the user is as before (absent if it
  was absent), the error slot holds the error's message, and the error is thrown to the
  caller; a following successful \<open>login\<close> sets the error slot to \<open>null\<close> and the user to
  the record the backend returned.
\<close>

theorem login_failure_then_success:
  assumes "loginUser d email password (world s) = (Inl (ApiError msg), w1)"
    and "s1 = snd (login d email password s)"
    and "loginUser d email2 password2 w1 = (Inr u, w2)"
  shows "fst (login d email password s) = Inl (ApiError msg)
       \<and> user s1 = user s
       \<and> error s1 = Some msg
       \<and> fst (login d email2 password2 s1) = Inr ()
       \<and> error (snd (login d email2 password2 s1)) = None
       \<and> user (snd (login d email2 password2 s1)) = Some u"
proof -
  have a: "login d email password s
             = (Inl (ApiError msg),
                setIsLoading False (setError (Some msg)
                  ((setIsLoading True (setError None s))
                     \<lparr>world := w1,
                      calls := calls (setIsLoading True (setError None s)) @ [LoginUser email password]\<rparr>)))"
    using assms(1) by (simp add: login_def await_loginUser_def setIsLoading_def setError_def)
  have w: "world s1 = w1"
    unfolding assms(2) a by (simp add: setIsLoading_def setError_def)
  have b: "fst (login d email2 password2 s1) = Inr ()
       \<and> error (snd (login d email2 password2 s1)) = None
       \<and> user (snd (login d email2 password2 s1)) = Some u"
    using assms(3) w
    by (simp add: login_def await_loginUser_def setIsLoading_def setError_def setUser_def)
  show ?thesis
    using b unfolding assms(2) a by (simp add: setIsLoading_def setError_def)
qed

text \<open>
  Claim C5, at a wrong password followed by the right one.
\<close>

theorem login_failure_then_success_witness:
  "fst (login demo ''alice@example.org'' ''guess'' (initial (browser None None True)))
     = Inl (ApiError ''Invalid credentials'')
   \<and> user (snd (login demo ''alice@example.org'' ''guess'' (initial (browser None None True)))) = None
   \<and> error (snd (login demo ''alice@example.org'' ''guess'' (initial (browser None None True))))
       = Some ''Invalid credentials''
   \<and> error (snd (login demo ''alice@example.org'' ''secret''
        (snd (login demo ''alice@example.org'' ''guess'' (initial (browser None None True)))))) = None
   \<and> user (snd (login demo ''alice@example.org'' ''secret''
        (snd (login demo ''alice@example.org'' ''guess'' (initial (browser None None True))))))
       = Some alice"
proof -
  let ?w = "browser None None True"
  have 1: "loginUser demo ''alice@example.org'' ''guess'' (world (initial ?w))
             = (Inl (ApiError ''Invalid credentials''), ?w)"
    by (simp add: demo_sel initial_def)
  have 3: "loginUser demo ''alice@example.org'' ''secret'' ?w = (Inr alice, tokenManager_set ''valid'' ?w)"
    by (simp add: demo_sel)
  from login_failure_then_success [OF 1 refl 3] show ?thesis
    by (simp add: initial_def)
qed

text \<open>
  Claim C6. Token manager round trip: after \<open>set(t)\<close>, \<open>get()\<close> returns \<open>t\<close> and
  \<open>getAuthHeader()\<close> returns the header of \<open>t\<close>, whatever was stored before; after
  \<open>remove()\<close>, \<open>get()\<close> returns the absent sentinel and \<open>getAuthHeader()\<close> the absent
  header.
\<close>

theorem tokenManager_round_trip:
  "tokenManager_get (tokenManager_set t w) = Some t
   \<and> tokenManager_getAuthHeader (tokenManager_set t w) = AuthHeader t
   \<and> tokenManager_get (tokenManager_remove w) = None
   \<and> tokenManager_getAuthHeader (tokenManager_remove w) = NoAuthHeader"
  by (simp add: tokenManager_get_def tokenManager_set_def tokenManager_remove_def
      tokenManager_getAuthHeader_def)

text \<open>
  Claim C7, as the code has it. For every partial record \<open>partial\<close> (an object names each
  of its fields once): with a user set, \<open>updateUser\<close> replaces the user with the merge, in
  which a field named by \<open>partial\<close> has the value \<open>partial\<close> gives it and every other field
  is unchanged. Where the merge serializes and the store takes the write, the serialized
  merge is then the cache entry \<open>auth_user\<close>; where \<open>JSON.stringify\<close> or
  \<open>localStorage.setItem\<close> throws, the exception is swallowed and the cache is as before.
  Nothing else changes. With no user set the whole state, the cache included, is left as
  it was.
\<close>

theorem updateUser_merges_and_caches:
  assumes "distinct (map fst partial)"
  shows "(user s = None \<longrightarrow> updateUser d partial s = s)
       \<and> (\<forall>prev. user s = Some prev \<longrightarrow>
            user (updateUser d partial s) = Some (spread prev partial)
          \<and> (\<forall>k. map_of (spread prev partial) k
                   = (case map_of partial k of Some v \<Rightarrow> Some v | None \<Rightarrow> map_of prev k))
          \<and> (\<forall>text. JSON_stringify d (spread prev partial) = Inr text
                  \<and> storage_accepts d ''auth_user'' text (world s)
                \<longrightarrow> localStorage (world (updateUser d partial s)) ''auth_user'' = Some text)
          \<and> (isl (JSON_stringify d (spread prev partial))
              \<or> (\<exists>text. JSON_stringify d (spread prev partial) = Inr text
                    \<and> \<not> storage_accepts d ''auth_user'' text (world s))
                \<longrightarrow> localStorage (world (updateUser d partial s)) = localStorage (world s))
          \<and> (\<forall>k. k \<noteq> ''auth_user'' \<longrightarrow>
                localStorage (world (updateUser d partial s)) k = localStorage (world s) k)
          \<and> token (world (updateUser d partial s)) = token (world s)
          \<and> backend (world (updateUser d partial s)) = backend (world s)
          \<and> isLoading (updateUser d partial s) = isLoading s
          \<and> error (updateUser d partial s) = error s
          \<and> calls (updateUser d partial s) = calls s)"
proof -
  have merge: "map_of (spread prev partial) k
                 = (case map_of partial k of Some v \<Rightarrow> Some v | None \<Rightarrow> map_of prev k)" for prev k
    using assms by (rule map_of_spread)
  have none: "user s = None \<longrightarrow> updateUser d partial s = s"
    by (simp add: updateUser_def)
  have some: "user (updateUser d partial s) = Some (spread prev partial)
          \<and> (\<forall>text. JSON_stringify d (spread prev partial) = Inr text
                  \<and> storage_accepts d ''auth_user'' text (world s)
                \<longrightarrow> localStorage (world (updateUser d partial s)) ''auth_user'' = Some text)
          \<and> (isl (JSON_stringify d (spread prev partial))
              \<or> (\<exists>text. JSON_stringify d (spread prev partial) = Inr text
                    \<and> \<not> storage_accepts d ''auth_user'' text (world s))
                \<longrightarrow> localStorage (world (updateUser d partial s)) = localStorage (world s))
          \<and> (\<forall>k. k \<noteq> ''auth_user'' \<longrightarrow>
                localStorage (world (updateUser d partial s)) k = localStorage (world s) k)
          \<and> token (world (updateUser d partial s)) = token (world s)
          \<and> backend (world (updateUser d partial s)) = backend (world s)
          \<and> isLoading (updateUser d partial s) = isLoading s
          \<and> error (updateUser d partial s) = error s
          \<and> calls (updateUser d partial s) = calls s"
    if "user s = Some prev" for prev
    using that
    by (cases "JSON_stringify d (spread prev partial)")
       (auto simp: updateUser_def Let_def localStorage_setItem_def)
  from none some merge show ?thesis by blast
qed

text \<open>
  Claim C7, at no user, and at \<open>alice\<close> being deactivated in a browser whose store takes
  the write.
\<close>

theorem updateUser_merges_and_caches_witness:
  "updateUser demo [(''is_active'', JBool False)] (initial (browser None None True))
     = initial (browser None None True)
   \<and> user (updateUser demo [(''is_active'', JBool False)]
        ((initial (browser (Some ''valid'') None True))\<lparr>user := Some alice\<rparr>))
       = Some [(''id'', JStr ''u1''), (''email'', JStr ''alice@example.org''),
               (''roles'', JArr [JStr ''Organizer'']), (''is_active'', JBool False)]
   \<and> localStorage (world (updateUser demo [(''is_active'', JBool False)]
        ((initial (browser (Some ''valid'') None True))\<lparr>user := Some alice\<rparr>))) ''auth_user''
       = Some ''other''"
proof -
  let ?s = "(initial (browser (Some ''valid'') None True))\<lparr>user := Some alice\<rparr>"
  have d: "distinct (map fst [(''is_active'', JBool False)])" by simp
  have n: "user (initial (browser None None True)) = None" by (simp add: initial_def)
  have u: "user ?s = Some alice"
    by simp
  have sp: "spread alice [(''is_active'', JBool False)]
     = [(''id'', JStr ''u1''), (''email'', JStr ''alice@example.org''),
               (''roles'', JArr [JStr ''Organizer'']), (''is_active'', JBool False)]"
    by (simp add: spread_def alice_def)
  have st: "JSON_stringify demo [(''id'', JStr ''u1''), (''email'', JStr ''alice@example.org''),
               (''roles'', JArr [JStr ''Organizer'']), (''is_active'', JBool False)] = Inr ''other''"
    by (simp add: demo_sel alice_def)
  have ac: "storage_accepts demo ''auth_user'' ''other'' (world ?s)"
    by (simp add: demo_sel)
  from updateUser_merges_and_caches [OF d, of "initial (browser None None True)" demo] n
  have 1: "updateUser demo [(''is_active'', JBool False)] (initial (browser None None True))
     = initial (browser None None True)"
    by simp
  from updateUser_merges_and_caches [OF d, of ?s demo] u
  have 2: "user (updateUser demo [(''is_active'', JBool False)] ?s)
             = Some (spread alice [(''is_active'', JBool False)])
     \<and> (\<forall>text. JSON_stringify demo (spread alice [(''is_active'', JBool False)]) = Inr text
                  \<and> storage_accepts demo ''auth_user'' text (world ?s)
                \<longrightarrow> localStorage (world (updateUser demo [(''is_active'', JBool False)] ?s))
                      ''auth_user'' = Some text)"
    by simp
  from 2 st ac have 3: "localStorage (world (updateUser demo [(''is_active'', JBool False)] ?s))
                      ''auth_user'' = Some ''other''"
    unfolding sp by blast
  from 1 2 3 show ?thesis
    unfolding sp by simp
qed

text \<open>
  Claim C7 as stated has the merged record written to the cache whenever a user is set.
  In a browser whose store refuses the write, \<open>alice\<close> is deactivated in the state while
  the cache entry stays absent.
\<close>

theorem updateUser_refused_write_leaves_cache:
  "user (updateUser full_store [(''is_active'', JBool False)]
        ((initial (browser (Some ''valid'') None True))\<lparr>user := Some alice\<rparr>))
       = Some [(''id'', JStr ''u1''), (''email'', JStr ''alice@example.org''),
               (''roles'', JArr [JStr ''Organizer'']), (''is_active'', JBool False)]
   \<and> JSON_stringify full_store
        [(''id'', JStr ''u1''), (''email'', JStr ''alice@example.org''),
         (''roles'', JArr [JStr ''Organizer'']), (''is_active'', JBool False)] = Inr ''other''
   \<and> localStorage (world (updateUser full_store [(''is_active'', JBool False)]
        ((initial (browser (Some ''valid'') None True))\<lparr>user := Some alice\<rparr>))) ''auth_user''
       = None"
  by (simp add: updateUser_def Let_def localStorage_setItem_def full_store_def demo_sel
      spread_def alice_def initial_def browser_def)

section \<open>Properties of the events API\<close>

text \<open>
  Claim C8. \<open>declineEvent(id)\<close> is \<open>updateEvent(id, {status: "cancelled"})\<close> with the
  returned event discarded: the same outcome and the same effect on the world. Both
  issue the request of the generic update, and \<open>declineEvent\<close> nothing else: its outcome
  and the world it leaves are those of the one call of \<open>apiPut\<close> on the path
  \<open>/api/v1/admin/events/<id>\<close> with the body \<open>{status: "cancelled"}\<close> and the current
  authorization header, and \<open>updateEvent\<close> returns the \<open>data\<close> of that same call. So
  two sets of HTTP helpers that answer this request alike give the same \<open>declineEvent\<close>,
  whatever their other endpoints do.
\<close>

theorem declineEvent_is_cancelling_update:
  "declineEvent h eventId w
     = (case updateEvent h eventId [(''status'', JStr ''cancelled'')] w of
          (r, w') \<Rightarrow> (map_sum id (\<lambda>event. ()) r, w'))
   \<and> declineEvent h eventId w
     = (case apiPut h (''/api/v1/admin/events/'' @ eventId) [(''status'', JStr ''cancelled'')]
               (tokenManager_getAuthHeader w) w of
          (r, w') \<Rightarrow> (map_sum id (\<lambda>response. ()) r, w'))
   \<and> updateEvent h eventId [(''status'', JStr ''cancelled'')] w
     = (case apiPut h (''/api/v1/admin/events/'' @ eventId) [(''status'', JStr ''cancelled'')]
               (tokenManager_getAuthHeader w) w of
          (r, w') \<Rightarrow> (map_sum id data r, w'))
   \<and> (\<forall>h'. apiPut h' (''/api/v1/admin/events/'' @ eventId) [(''status'', JStr ''cancelled'')]
               (tokenManager_getAuthHeader w) w
            = apiPut h (''/api/v1/admin/events/'' @ eventId) [(''status'', JStr ''cancelled'')]
               (tokenManager_getAuthHeader w) w
          \<longrightarrow> declineEvent h' eventId w = declineEvent h eventId w)"
  by (auto simp: declineEvent_def updateEvent_def split: prod.splits sum.splits)

text \<open>
  Claim C8, at event \<open>42\<close>: with a token stored the example server answers the
  \<open>PUT\<close> request with the updated event, without one it refuses the request, and
  \<open>declineEvent\<close> follows it in both; replacing the \<open>POST\<close> helper changes nothing.
\<close>

theorem declineEvent_is_cancelling_update_witness:
  "declineEvent server ''42'' (browser (Some ''valid'') None True)
     = (Inr (), browser (Some ''valid'') None True)
   \<and> updateEvent server ''42'' [(''status'', JStr ''cancelled'')] (browser (Some ''valid'') None True)
     = (Inr [(''id'', JStr ''42''), (''status'', JStr ''cancelled'')], browser (Some ''valid'') None True)
   \<and> declineEvent server ''42'' (browser None None True)
     = (Inl (ApiError ''Unauthorized''), browser None None True)
   \<and> declineEvent (server\<lparr>apiPost := (\<lambda>path body hdr w. (Inr \<lparr>data = []\<rparr>, tokenManager_remove w))\<rparr>)
       ''42'' (browser (Some ''valid'') None True)
     = declineEvent server ''42'' (browser (Some ''valid'') None True)"
proof -
  let ?w = "browser (Some ''valid'') None True"
  let ?n = "browser None None True"
  let ?h = "server\<lparr>apiPost := (\<lambda>path body hdr w. (Inr \<lparr>data = []\<rparr>, tokenManager_remove w))\<rparr>"
  have a: "apiPut server (''/api/v1/admin/events/'' @ ''42'') [(''status'', JStr ''cancelled'')]
               (tokenManager_getAuthHeader ?w) ?w
            = (Inr \<lparr>data = [(''id'', JStr ''42''), (''status'', JStr ''cancelled'')]\<rparr>, ?w)"
    by (simp add: server_def tokenManager_getAuthHeader_def tokenManager_get_def browser_def)
  have b: "apiPut server (''/api/v1/admin/events/'' @ ''42'') [(''status'', JStr ''cancelled'')]
               (tokenManager_getAuthHeader ?n) ?n
            = (Inl (ApiError ''Unauthorized''), ?n)"
    by (simp add: server_def tokenManager_getAuthHeader_def tokenManager_get_def browser_def)
  have p: "apiPut ?h (''/api/v1/admin/events/'' @ ''42'') [(''status'', JStr ''cancelled'')]
               (tokenManager_getAuthHeader ?w) ?w
            = apiPut server (''/api/v1/admin/events/'' @ ''42'') [(''status'', JStr ''cancelled'')]
               (tokenManager_getAuthHeader ?w) ?w"
    by simp
  from declineEvent_is_cancelling_update [of server "''42''" ?w] a p
  have 1: "declineEvent server ''42'' ?w = (Inr (), ?w)
     \<and> updateEvent server ''42'' [(''status'', JStr ''cancelled'')] ?w
         = (Inr [(''id'', JStr ''42''), (''status'', JStr ''cancelled'')], ?w)
     \<and> declineEvent ?h ''42'' ?w = declineEvent server ''42'' ?w"
    by simp
  from declineEvent_is_cancelling_update [of server "''42''" ?n] b
  have 2: "declineEvent server ''42'' ?n = (Inl (ApiError ''Unauthorized''), ?n)"
    by simp
  from 1 2 show ?thesis by simp
qed

end
